theory Spec2Isabelle
  imports Main "HOL-Library.Sublist"
begin

section \<open>Python values and errors\<close>

text \<open>
  The routines of \<^verbatim>\<open>ocr_pdf.py\<close> inspect their argument at run time
  (\<^verbatim>\<open>hasattr\<close>, \<^verbatim>\<open>isinstance\<close>, \<^verbatim>\<open>in\<close>), so the embedding works on a universe of
  Python values: \<^verbatim>\<open>None\<close>, integers, strings, lists, dictionaries with string keys (an
  association list in insertion order) and plain objects (their attributes as an
  association list). A character of a \<open>string\<close> stands for one code point of a Python
  \<^verbatim>\<open>str\<close>.
\<close>

datatype pyval =
    PNone
  | PInt int
  | PStr string
  | PList "pyval list"
  | PDict "(string \<times> pyval) list"
  | PObj "(string \<times> pyval) list"

datatype error =
    AttributeError
  | TypeError
  | KeyError
  | ValueError string
  | Binascii_Error
  | OSError
  | UpstreamError

fun and_then :: "error + 'a \<Rightarrow> ('a \<Rightarrow> error + 'b) \<Rightarrow> error + 'b" where
  "and_then (Inl e) f = Inl e"
| "and_then (Inr v) f = f v"

text \<open>\<^verbatim>\<open>hasattr(v, name)\<close> and \<^verbatim>\<open>v.name\<close>: only objects carry the attributes the code asks for.\<close>

fun hasattr :: "pyval \<Rightarrow> string \<Rightarrow> bool" where
  "hasattr (PObj attrs) name = (map_of attrs name \<noteq> None)"
| "hasattr _ name = False"

fun getattr :: "pyval \<Rightarrow> string \<Rightarrow> error + pyval" where
  "getattr (PObj attrs) name =
     (case map_of attrs name of None \<Rightarrow> Inl AttributeError | Some v \<Rightarrow> Inr v)"
| "getattr _ name = Inl AttributeError"

text \<open>\<^verbatim>\<open>isinstance(v, dict)\<close>, \<^verbatim>\<open>isinstance(v, list)\<close>.\<close>

fun is_dict :: "pyval \<Rightarrow> bool" where
  "is_dict (PDict kvs) = True"
| "is_dict _ = False"

fun is_list :: "pyval \<Rightarrow> bool" where
  "is_list (PList xs) = True"
| "is_list _ = False"

text \<open>Python's substring test \<^verbatim>\<open>pat in s\<close> on strings.\<close>

fun str_contains :: "'a list \<Rightarrow> 'a list \<Rightarrow> bool" where
  "str_contains pat [] = (pat = [])"
| "str_contains pat (c # cs) = (prefix pat (c # cs) \<or> str_contains pat cs)"

text \<open>\<^verbatim>\<open>key in v\<close> for a string key: membership of a key in a dictionary, of an element in
  a list, of a substring in a string; a \<^verbatim>\<open>TypeError\<close> on a value that is not iterable.\<close>

fun py_in :: "string \<Rightarrow> pyval \<Rightarrow> error + bool" where
  "py_in k (PDict kvs) = Inr (map_of kvs k \<noteq> None)"
| "py_in k (PList xs) = Inr (PStr k \<in> set xs)"
| "py_in k (PStr s) = Inr (str_contains k s)"
| "py_in k _ = Inl TypeError"

text \<open>\<^verbatim>\<open>v[key]\<close> for a string key.\<close>

fun getitem :: "pyval \<Rightarrow> string \<Rightarrow> error + pyval" where
  "getitem (PDict kvs) k = (case map_of kvs k of None \<Rightarrow> Inl KeyError | Some v \<Rightarrow> Inr v)"
| "getitem _ k = Inl TypeError"

text \<open>The elements a \<^verbatim>\<open>for\<close> loop visits.\<close>

fun py_iter :: "pyval \<Rightarrow> error + pyval list" where
  "py_iter (PList xs) = Inr xs"
| "py_iter (PStr s) = Inr (map (\<lambda>c. PStr [c]) s)"
| "py_iter (PDict kvs) = Inr (map (\<lambda>kv. PStr (fst kv)) kvs)"
| "py_iter _ = Inl TypeError"

text \<open>Truth value of a value in a condition.\<close>

fun truthy :: "pyval \<Rightarrow> bool" where
  "truthy PNone = False"
| "truthy (PInt n) = (n \<noteq> 0)"
| "truthy (PStr s) = (s \<noteq> [])"
| "truthy (PList xs) = (xs \<noteq> [])"
| "truthy (PDict kvs) = (kvs \<noteq> [])"
| "truthy (PObj attrs) = True"

text \<open>\<^verbatim>\<open>content += v\<close> on a string \<^verbatim>\<open>content\<close>.\<close>

fun str_add :: "string \<Rightarrow> pyval \<Rightarrow> error + string" where
  "str_add content (PStr s) = Inr (content @ s)"
| "str_add content _ = Inl TypeError"

section \<open>Formatting and string replacement\<close>

definition digit_char :: "nat \<Rightarrow> char" where
  "digit_char d =
     (if d = 0 then CHR ''0'' else if d = 1 then CHR ''1'' else if d = 2 then CHR ''2''
      else if d = 3 then CHR ''3'' else if d = 4 then CHR ''4'' else if d = 5 then CHR ''5''
      else if d = 6 then CHR ''6'' else if d = 7 then CHR ''7'' else if d = 8 then CHR ''8''
      else CHR ''9'')"

fun str_nat :: "nat \<Rightarrow> string" where
  "str_nat n = (if n < 10 then [digit_char n] else str_nat (n div 10) @ [digit_char (n mod 10)])"

declare str_nat.simps [simp del]

definition str_int :: "int \<Rightarrow> string" where
  "str_int n = (if n < 0 then CHR ''-'' # str_nat (nat (- n)) else str_nat (nat n))"

text \<open>
  \<^verbatim>\<open>f"{v}"\<close>: a string is inserted as it is, an integer in decimal, \<^verbatim>\<open>None\<close> as its name.
  The text Python's \<^verbatim>\<open>str\<close> gives a list, a dictionary or an object is the parameter
  \<open>fmt\<close>.
\<close>

fun py_str :: "(pyval \<Rightarrow> string) \<Rightarrow> pyval \<Rightarrow> string" where
  "py_str fmt (PStr s) = s"
| "py_str fmt (PInt n) = str_int n"
| "py_str fmt PNone = ''None''"
| "py_str fmt v = fmt v"

text \<open>\<^verbatim>\<open>s.replace(old, new)\<close>: every non-overlapping occurrence, from the left.\<close>

function py_replace :: "'a list \<Rightarrow> 'a list \<Rightarrow> 'a list \<Rightarrow> 'a list" where
  "py_replace old new [] = (if old = [] then new else [])"
| "py_replace old new (c # cs) =
     (if old = [] then new @ c # py_replace old new cs
      else if prefix old (c # cs) then new @ py_replace old new (drop (length old) (c # cs))
      else c # py_replace old new cs)"
  by pat_completeness auto
termination
  by (relation "measure (\<lambda>(old, new, s). length s)") auto

fun join :: "'a list \<Rightarrow> 'a list list \<Rightarrow> 'a list" where
  "join sep [] = []"
| "join sep [x] = x"
| "join sep (x # y # ys) = x @ sep @ join sep (y # ys)"

section \<open>extract\_markdown\_from\_result\<close>

definition nl :: char where
  "nl = CHR 0x0A"

definition page_header :: "nat \<Rightarrow> string" where
  "page_header i = ''## Page '' @ str_nat (i + 1) @ [nl, nl]"

definition page_separator :: string where
  "page_separator = [nl, nl] @ ''---'' @ [nl, nl]"

text \<open>Lines 112-115 and 158-161: the markdown of a page that is an object or a dictionary.\<close>

definition add_markdown :: "string \<Rightarrow> pyval \<Rightarrow> error + string" where
  "add_markdown content page =
     (if hasattr page ''markdown'' then and_then (getattr page ''markdown'') (str_add content)
      else if is_dict page \<and> py_in ''markdown'' page = Inr True
        then and_then (getitem page ''markdown'') (str_add content)
      else Inr content)"

text \<open>Lines 149-150: in the dictionary branch the page is not tested for being a dictionary.\<close>

definition add_markdown_key :: "string \<Rightarrow> pyval \<Rightarrow> error + string" where
  "add_markdown_key content page =
     and_then (py_in ''markdown'' page)
       (\<lambda>b. if b then and_then (getitem page ''markdown'') (str_add content) else Inr content)"

text \<open>Lines 120-140: the three substitutions for one image, on page index \<open>i\<close>.\<close>

definition image_link :: "string \<Rightarrow> string \<Rightarrow> string" where
  "image_link ident img_path = ''![Image '' @ ident @ '']('' @ img_path @ '')''"

definition image_path :: "string option \<Rightarrow> string \<Rightarrow> string" where
  "image_path images_dir ident =
     (case images_dir of
        None \<Rightarrow> ident
      | Some d \<Rightarrow> if d \<noteq> [] then d @ ''/'' @ ident else ident)"

definition placeholder :: "nat \<Rightarrow> string" where
  "placeholder i = ''![img-'' @ str_nat i @ ''.jpeg](img-'' @ str_nat i @ ''.jpeg)''"

definition replace_if_in :: "string \<Rightarrow> string \<Rightarrow> string \<Rightarrow> string" where
  "replace_if_in old new content =
     (if str_contains old content then py_replace old new content else content)"

definition link_image ::
  "(pyval \<Rightarrow> string) \<Rightarrow> string option \<Rightarrow> nat \<Rightarrow> string \<Rightarrow> pyval \<Rightarrow> string" where
  "link_image fmt images_dir i content img =
     (case getattr img ''id'' of
        Inl e \<Rightarrow> content
      | Inr v \<Rightarrow>
          (let ident = py_str fmt v;
               link = image_link ident (image_path images_dir ident);
               c1 = replace_if_in (''!'' @ ident @ ''!'') link content;
               c2 = replace_if_in (''!['' @ ident @ '']('' @ ident @ '')'') link c1
           in replace_if_in (placeholder i) link c2))"

definition page_section_obj ::
  "(pyval \<Rightarrow> string) \<Rightarrow> bool \<Rightarrow> string option \<Rightarrow> nat \<Rightarrow> pyval \<Rightarrow> error + string" where
  "page_section_obj fmt include_images images_dir i page =
     and_then (add_markdown (page_header i) page)
       (\<lambda>content.
          if include_images \<and> hasattr page ''images''
             \<and> (case getattr page ''images'' of Inr v \<Rightarrow> truthy v | Inl e \<Rightarrow> False)
          then and_then (and_then (getattr page ''images'') py_iter)
                 (\<lambda>imgs. Inr (foldl (link_image fmt images_dir i) content imgs))
          else Inr content)"

definition page_section_dict :: "nat \<Rightarrow> pyval \<Rightarrow> error + string" where
  "page_section_dict i page = add_markdown_key (page_header i) page"

definition page_section_list :: "nat \<Rightarrow> pyval \<Rightarrow> error + string" where
  "page_section_list i page = add_markdown (page_header i) page"

text \<open>The loop over \<^verbatim>\<open>enumerate(pages)\<close>, appending one section per page; the first
  error ends it.\<close>

fun sections :: "(nat \<Rightarrow> pyval \<Rightarrow> error + string) \<Rightarrow> nat \<Rightarrow> pyval list \<Rightarrow> error + string list" where
  "sections f i [] = Inr []"
| "sections f i (p # ps) =
     and_then (f i p) (\<lambda>s. and_then (sections f (Suc i) ps) (\<lambda>ss. Inr (s # ss)))"

definition pages_content ::
  "(pyval \<Rightarrow> string) \<Rightarrow> pyval \<Rightarrow> bool \<Rightarrow> string option \<Rightarrow> error + string list" where
  "pages_content fmt result include_images images_dir =
     (if hasattr result ''pages'' then
        and_then (and_then (getattr result ''pages'') py_iter)
          (sections (page_section_obj fmt include_images images_dir) 0)
      else if is_dict result \<and> py_in ''pages'' result = Inr True then
        and_then (and_then (getitem result ''pages'') py_iter) (sections page_section_dict 0)
      else if is_list result then
        and_then (py_iter result) (sections page_section_list 0)
      else Inr [])"

definition extract_markdown_from_result ::
  "(pyval \<Rightarrow> string) \<Rightarrow> pyval \<Rightarrow> bool \<Rightarrow> string option \<Rightarrow> error + string" where
  "extract_markdown_from_result fmt result include_images images_dir =
     and_then (pages_content fmt result include_images images_dir)
       (\<lambda>pc. Inr ([nl, nl] @ join page_separator pc))"

section \<open>save\_images\_from\_ocr\<close>

text \<open>
  The file system, the standard output and the OCR service are outside the program. A
  run is described by the effects it performs, in order, together with the value it
  returns or the exception that ends it. Four answers of the library and of the file
  system are parameters: \<open>fmt\<close> (Python's \<^verbatim>\<open>str\<close>, see \<open>py_str\<close>), \<open>joinpath\<close> (the
  text of \<^verbatim>\<open>Path(output_dir) / name\<close>), \<open>can_open\<close> (whether \<^verbatim>\<open>open(path, "wb")\<close> succeeds:
  it raises an \<^verbatim>\<open>OSError\<close> where the path names a directory or lies in a directory that
  does not exist) and \<open>b64decode\<close> (\<^verbatim>\<open>base64.b64decode\<close> on a string). Making the output
  directory and writing to an open file are taken to succeed.
\<close>

text \<open>
  \<^verbatim>\<open>base64.b64decode(s)\<close> for a string \<^verbatim>\<open>s\<close> gives the decoded bytes, or raises
  \<^verbatim>\<open>binascii.Error\<close> on data that is not valid base64, or raises \<^verbatim>\<open>ValueError\<close> on a string
  with a character outside ASCII.
\<close>

datatype decoded = Decoded string | Invalid_Base64 | Not_Ascii

definition not_ascii :: string where
  "not_ascii = ''string argument should contain only ASCII characters''"

datatype effect =
    Print string
  | Mkdir string
  | OpenWb string
  | WriteBytes string string
  | NewClient string
  | OpenRb string
  | Upload string string
  | GetSignedUrl pyval
  | OcrProcess pyval
  | Clock

type_synonym state = "nat \<times> effect list"

text \<open>A \<^verbatim>\<open>for\<close> loop whose body changes the state and may raise.\<close>

fun for_each :: "('s \<Rightarrow> pyval \<Rightarrow> 's \<times> error option) \<Rightarrow> 's \<Rightarrow> pyval list \<Rightarrow> 's \<times> error option" where
  "for_each f s [] = (s, None)"
| "for_each f s (x # xs) =
     (case f s x of
        (s', Some e) \<Rightarrow> (s', Some e)
      | (s', None) \<Rightarrow> for_each f s' xs)"

text \<open>Lines 79-84, for one image: the counter is raised first, the file is opened
  before the data is decoded. An attempt to open is an effect of the run also where it
  fails.\<close>

definition save_image ::
  "(pyval \<Rightarrow> string) \<Rightarrow> (string \<Rightarrow> string \<Rightarrow> string) \<Rightarrow> (string \<Rightarrow> bool) \<Rightarrow>
   (string \<Rightarrow> decoded) \<Rightarrow> string \<Rightarrow> state \<Rightarrow> pyval \<Rightarrow> state \<times> error option" where
  "save_image fmt joinpath can_open b64decode output_dir st img =
     (case st of (image_count, tr) \<Rightarrow>
       (case getattr img ''image_base64'' of
          Inl e \<Rightarrow> (st, None)
        | Inr data \<Rightarrow>
            if \<not> truthy data then (st, None)
            else
              (case getattr img ''id'' of
                 Inl e \<Rightarrow> ((image_count + 1, tr), Some e)
               | Inr v \<Rightarrow>
                   (let img_path = joinpath output_dir (py_str fmt v);
                        tr1 = tr @ [OpenWb img_path]
                    in if \<not> can_open img_path then ((image_count + 1, tr1), Some OSError)
                       else
                         (case data of
                            PStr s \<Rightarrow>
                              (case b64decode s of
                                 Decoded bytes \<Rightarrow>
                                   ((image_count + 1,
                                     tr1 @ [WriteBytes img_path bytes,
                                            Print (''Saved image: '' @ img_path)]), None)
                               | Invalid_Base64 \<Rightarrow> ((image_count + 1, tr1), Some Binascii_Error)
                               | Not_Ascii \<Rightarrow>
                                   ((image_count + 1, tr1), Some (ValueError not_ascii)))
                          | _ \<Rightarrow> ((image_count + 1, tr1), Some TypeError))))))"

text \<open>Lines 77-78, for one page.\<close>

definition save_page_images ::
  "(pyval \<Rightarrow> string) \<Rightarrow> (string \<Rightarrow> string \<Rightarrow> string) \<Rightarrow> (string \<Rightarrow> bool) \<Rightarrow>
   (string \<Rightarrow> decoded) \<Rightarrow> string \<Rightarrow> state \<Rightarrow> pyval \<Rightarrow> state \<times> error option" where
  "save_page_images fmt joinpath can_open b64decode output_dir st page =
     (case getattr page ''images'' of
        Inl e \<Rightarrow> (st, None)
      | Inr v \<Rightarrow>
          if \<not> truthy v then (st, None)
          else (case py_iter v of
                  Inl e \<Rightarrow> (st, Some e)
                | Inr imgs \<Rightarrow> for_each (save_image fmt joinpath can_open b64decode output_dir) st imgs))"

definition report :: "nat \<Rightarrow> string \<Rightarrow> string" where
  "report image_count output_dir =
     (if image_count > 0 then ''Saved '' @ str_nat image_count @ '' images to '' @ output_dir
      else ''No images found in OCR results'')"

text \<open>The function has no \<^verbatim>\<open>return\<close> statement: a run that completes returns \<^verbatim>\<open>None\<close>.\<close>

definition save_images_from_ocr ::
  "(pyval \<Rightarrow> string) \<Rightarrow> (string \<Rightarrow> string \<Rightarrow> string) \<Rightarrow> (string \<Rightarrow> bool) \<Rightarrow>
   (string \<Rightarrow> decoded) \<Rightarrow> pyval \<Rightarrow> string \<Rightarrow> effect list \<times> (error + pyval)" where
  "save_images_from_ocr fmt joinpath can_open b64decode ocr_response output_dir =
     (let tr0 = [Mkdir output_dir] in
      case and_then (getattr ocr_response ''pages'') py_iter of
        Inl e \<Rightarrow> (tr0, Inl e)
      | Inr pages \<Rightarrow>
          (case for_each (save_page_images fmt joinpath can_open b64decode output_dir) (0, tr0) pages of
             ((image_count, tr), Some e) \<Rightarrow> (tr, Inl e)
           | ((image_count, tr), None) \<Rightarrow>
               (tr @ [Print (report image_count output_dir)], Inr PNone)))"

section \<open>ocr\_pdf\<close>

text \<open>
  The environment, the file system and the OCR client are collaborators of the program:
  the record \<open>world\<close> gives what each of their operations answers (\<open>None\<close> where it
  raises). Every call on a collaborator is an effect of the run, recorded before its
  answer is used.
\<close>

record world =
  environ :: "string \<Rightarrow> string option"
  open_rb :: "string \<Rightarrow> string option"
  open_wb :: "string \<Rightarrow> bool"
  upload :: "string \<Rightarrow> string \<Rightarrow> pyval option"
  get_signed_url :: "pyval \<Rightarrow> pyval option"
  process :: "pyval \<Rightarrow> pyval option"
  basename :: "string \<Rightarrow> string"
  splitext_root :: "string \<Rightarrow> string"
  elapsed :: string

type_synonym 'a run = "effect list \<times> (error + 'a)"

fun seq :: "'a run \<Rightarrow> ('a \<Rightarrow> 'b run) \<Rightarrow> 'b run" where
  "seq (tr, Inl e) f = (tr, Inl e)"
| "seq (tr, Inr v) f = (case f v of (tr', r) \<Rightarrow> (tr @ tr', r))"

definition emit :: "effect \<Rightarrow> unit run" where
  "emit e = ([e], Inr ())"

definition call :: "effect \<Rightarrow> error \<Rightarrow> 'a option \<Rightarrow> 'a run" where
  "call e err answer = ([e], case answer of None \<Rightarrow> Inl err | Some v \<Rightarrow> Inr v)"

definition pure :: "error + 'a \<Rightarrow> 'a run" where
  "pure r = ([], r)"

definition missing_key :: string where
  "missing_key = ''MISTRAL_API_KEY environment variable not set.''"

text \<open>Lines 35-52 of \<^verbatim>\<open>ocr_pdf.py\<close> and 14-26 of \<^verbatim>\<open>main.py\<close>: upload, signed URL, OCR.
  \<open>verbose\<close> is true for \<^verbatim>\<open>ocr_pdf.py\<close>, which prints its progress and reads the clock.\<close>

definition upload_and_process :: "world \<Rightarrow> bool \<Rightarrow> string \<Rightarrow> pyval run" where
  "upload_and_process w verbose pdf_path =
     seq (if verbose then emit (Print ''Uploading PDF to Mistral API...'') else pure (Inr ()))
     (\<lambda>_. seq (call (OpenRb pdf_path) OSError (open_rb w pdf_path))
     (\<lambda>f. seq (call (Upload (basename w pdf_path) f) UpstreamError
                  (upload w (basename w pdf_path) f))
     (\<lambda>uploaded_pdf. seq (pure (getattr uploaded_pdf ''id''))
     (\<lambda>file_id. seq (call (GetSignedUrl file_id) UpstreamError (get_signed_url w file_id))
     (\<lambda>signed_url.
        seq (if verbose
             then seq (emit (Print ''Running OCR processing (this may take a while)...''))
                    (\<lambda>_. emit Clock)
             else pure (Inr ()))
     (\<lambda>_. seq (pure (getattr signed_url ''url''))
     (\<lambda>url. seq (call (OcrProcess url) UpstreamError (process w url))
     (\<lambda>ocr_response.
        seq (if verbose
             then seq (emit Clock)
                    (\<lambda>_. emit (Print (''OCR processing completed in '' @ elapsed w @ '' seconds'')))
             else pure (Inr ()))
     (\<lambda>_. pure (Inr ocr_response))))))))))"

text \<open>\<^verbatim>\<open>ocr_pdf\<close> of \<^verbatim>\<open>ocr_pdf.py\<close>.\<close>

definition ocr_pdf ::
  "world \<Rightarrow> (pyval \<Rightarrow> string) \<Rightarrow> (string \<Rightarrow> string \<Rightarrow> string) \<Rightarrow> (string \<Rightarrow> decoded) \<Rightarrow>
   string \<Rightarrow> bool \<Rightarrow> string option \<Rightarrow> pyval run" where
  "ocr_pdf w fmt joinpath b64decode pdf_path save_images output_dir =
     (case environ w ''MISTRAL_API_KEY'' of
        None \<Rightarrow> ([], Inl (ValueError missing_key))
      | Some api_key \<Rightarrow>
          if api_key = [] then ([], Inl (ValueError missing_key))
          else
            seq (emit (Print (''Processing PDF: '' @ pdf_path)))
            (\<lambda>_. seq (emit (NewClient api_key))
            (\<lambda>_. seq (upload_and_process w True pdf_path)
            (\<lambda>ocr_response.
               if save_images \<and> hasattr ocr_response ''pages'' then
                 seq (save_images_from_ocr fmt joinpath (open_wb w) b64decode ocr_response
                        (case output_dir of
                           None \<Rightarrow> splitext_root w (basename w pdf_path) @ ''_images''
                         | Some d \<Rightarrow>
                             if d = [] then splitext_root w (basename w pdf_path) @ ''_images''
                             else d))
                   (\<lambda>_. pure (Inr ocr_response))
               else pure (Inr ocr_response)))))"

text \<open>\<^verbatim>\<open>ocr_pdf\<close> of \<^verbatim>\<open>main.py\<close>.\<close>

definition main_ocr_pdf :: "world \<Rightarrow> string \<Rightarrow> pyval run" where
  "main_ocr_pdf w pdf_path =
     (case environ w ''MISTRAL_API_KEY'' of
        None \<Rightarrow> ([], Inl (ValueError missing_key))
      | Some api_key \<Rightarrow>
          if api_key = [] then ([], Inl (ValueError missing_key))
          else seq (emit (NewClient api_key)) (\<lambda>_. upload_and_process w False pdf_path))"

section \<open>Document content and its three encodings\<close>

text \<open>
  The logical content of a document, as the specification's data model has it: pages in
  order, each with its markdown text and its image references; an image reference has
  an id and optional base64 data. A document reaches the program as an object with a
  \<^verbatim>\<open>pages\<close> attribute, as a mapping with the key \<^verbatim>\<open>pages\<close>, or as a bare list of pages.
\<close>

datatype image_ref = ImageRef (ref_id: string) (base64Data: "string option")

datatype page = Page (markdown: string) (images: "image_ref list")

fun img_obj :: "image_ref \<Rightarrow> pyval" where
  "img_obj (ImageRef i b) =
     PObj ((''id'', PStr i) # (case b of None \<Rightarrow> [] | Some d \<Rightarrow> [(''image_base64'', PStr d)]))"

fun img_dict :: "image_ref \<Rightarrow> pyval" where
  "img_dict (ImageRef i b) =
     PDict ((''id'', PStr i) # (case b of None \<Rightarrow> [] | Some d \<Rightarrow> [(''image_base64'', PStr d)]))"

fun page_obj :: "page \<Rightarrow> pyval" where
  "page_obj (Page md imgs) =
     PObj [(''markdown'', PStr md), (''images'', PList (map img_obj imgs))]"

fun page_dict :: "page \<Rightarrow> pyval" where
  "page_dict (Page md imgs) =
     PDict [(''markdown'', PStr md), (''images'', PList (map img_dict imgs))]"

definition as_object :: "page list \<Rightarrow> pyval" where
  "as_object ps = PObj [(''pages'', PList (map page_obj ps))]"

definition as_mapping :: "page list \<Rightarrow> pyval" where
  "as_mapping ps = PDict [(''pages'', PList (map page_dict ps))]"

definition as_list :: "page list \<Rightarrow> pyval" where
  "as_list ps = PList (map page_obj ps)"


text \<open>The sections of a document when no image is linked: each page's heading and text.\<close>

fun plain_sections :: "nat \<Rightarrow> page list \<Rightarrow> string list" where
  "plain_sections i [] = []"
| "plain_sections i (p # ps) = (page_header i @ markdown p) # plain_sections (Suc i) ps"




text \<open>A value in none of the three shapes.\<close>

fun unrecognized :: "pyval \<Rightarrow> bool" where
  "unrecognized (PList xs) = False"
| "unrecognized (PDict kvs) = (''pages'' \<notin> fst ` set kvs)"
| "unrecognized (PObj attrs) = (''pages'' \<notin> fst ` set attrs)"
| "unrecognized _ = True"

text \<open>Simple instances of the library parameters, for evaluating the functions.\<close>

definition plain_fmt :: "pyval \<Rightarrow> string" where
  "plain_fmt v = ''<value>''"

definition slash_join :: "string \<Rightarrow> string \<Rightarrow> string" where
  "slash_join d name = d @ ''/'' @ name"

definition any_path :: "string \<Rightarrow> bool" where
  "any_path p = True"

definition no_path :: "string \<Rightarrow> bool" where
  "no_path p = False"

definition raw_decode :: "string \<Rightarrow> decoded" where
  "raw_decode s = Decoded s"

text \<open>The pages one of the three shapes carries, and the section the code computes for
  the page at index \<open>i\<close> of a result (the body of the loop of the branch taken).\<close>

fun result_pages :: "pyval \<Rightarrow> pyval list option" where
  "result_pages (PObj attrs) =
     (case map_of attrs ''pages'' of Some (PList ps) \<Rightarrow> Some ps | _ \<Rightarrow> None)"
| "result_pages (PDict kvs) =
     (case map_of kvs ''pages'' of Some (PList ps) \<Rightarrow> Some ps | _ \<Rightarrow> None)"
| "result_pages (PList ps) = Some ps"
| "result_pages _ = None"

definition page_section ::
  "(pyval \<Rightarrow> string) \<Rightarrow> pyval \<Rightarrow> bool \<Rightarrow> string option \<Rightarrow> nat \<Rightarrow> pyval \<Rightarrow> error + string" where
  "page_section fmt result include_images images_dir =
     (if hasattr result ''pages'' then page_section_obj fmt include_images images_dir
      else if is_dict result then page_section_dict
      else page_section_list)"






text \<open>
  What the specification asks of the image extractor on a document: for every page, for
  every image reference with non-empty base64 data, the data is decoded and written to
  the file named by the image id under the output directory.
\<close>

definition has_data :: "image_ref \<Rightarrow> bool" where
  "has_data im = (case base64Data im of None \<Rightarrow> False | Some b \<Rightarrow> b \<noteq> [])"

text \<open>An image that can be saved under the output directory: if it has data, its file
  can be opened for writing and the data decodes.\<close>

definition savable ::
  "(string \<Rightarrow> string \<Rightarrow> string) \<Rightarrow> (string \<Rightarrow> bool) \<Rightarrow> (string \<Rightarrow> decoded) \<Rightarrow> string \<Rightarrow>
   image_ref \<Rightarrow> bool" where
  "savable joinpath can_open b64decode output_dir im =
     (case base64Data im of
        None \<Rightarrow> True
      | Some b \<Rightarrow>
          b = [] \<or>
          (can_open (joinpath output_dir (ref_id im))
           \<and> (case b64decode b of Decoded bytes \<Rightarrow> True | _ \<Rightarrow> False)))"

definition image_effects ::
  "(string \<Rightarrow> string \<Rightarrow> string) \<Rightarrow> (string \<Rightarrow> decoded) \<Rightarrow> string \<Rightarrow> image_ref \<Rightarrow> effect list" where
  "image_effects joinpath b64decode output_dir im =
     (case base64Data im of
        None \<Rightarrow> []
      | Some b \<Rightarrow>
          if b = [] then []
          else (case b64decode b of
                  Decoded bytes \<Rightarrow>
                    [OpenWb (joinpath output_dir (ref_id im)),
                     WriteBytes (joinpath output_dir (ref_id im)) bytes,
                     Print (''Saved image: '' @ joinpath output_dir (ref_id im))]
                | _ \<Rightarrow> []))"

definition page_effects ::
  "(string \<Rightarrow> string \<Rightarrow> string) \<Rightarrow> (string \<Rightarrow> decoded) \<Rightarrow> string \<Rightarrow> page \<Rightarrow> effect list" where
  "page_effects joinpath b64decode output_dir p =
     concat (map (image_effects joinpath b64decode output_dir) (images p))"

definition data_count :: "page list \<Rightarrow> nat" where
  "data_count ps = sum_list (map (\<lambda>p. length (filter has_data (images p))) ps)"

text \<open>Two worlds for evaluating \<open>ocr_pdf\<close>: one without the credential, one with it.\<close>

definition no_key_world :: world where
  "no_key_world =
     \<lparr> environ = (\<lambda>k. None), open_rb = (\<lambda>p. Some ''%PDF''), open_wb = (\<lambda>p. True),
       upload = (\<lambda>name content. Some (PObj [(''id'', PStr ''file-1'')])),
       get_signed_url = (\<lambda>file_id. Some (PObj [(''url'', PStr ''https://signed'')])),
       process = (\<lambda>url. Some (PObj [(''pages'', PList [])])),
       basename = (\<lambda>p. p), splitext_root = (\<lambda>p. p), elapsed = ''0.00'' \<rparr>"

definition key_world :: world where
  "key_world = no_key_world \<lparr> environ := (\<lambda>k. if k = ''MISTRAL_API_KEY'' then Some ''secret'' else None) \<rparr>"

section \<open>Properties\<close>

subsection \<open>Substrings, replacement and page headers\<close>

lemma str_contains_iff: "str_contains pat s \<longleftrightarrow> (\<exists>ps ss. s = ps @ pat @ ss)"
proof (induction s)
  case Nil
  then show ?case by auto
next
  case (Cons c cs)
  show ?case
  proof
    assume "str_contains pat (c # cs)"
    then consider "prefix pat (c # cs)" | "str_contains pat cs" by auto
    then show "\<exists>ps ss. c # cs = ps @ pat @ ss"
    proof cases
      case 1
      then obtain ss where "c # cs = pat @ ss" by (auto simp: prefix_def)
      then have "c # cs = [] @ pat @ ss" by simp
      then show ?thesis by blast
    next
      case 2
      with Cons.IH obtain ps ss where "cs = ps @ pat @ ss" by blast
      then have "c # cs = (c # ps) @ pat @ ss" by simp
      then show ?thesis by blast
    qed
  next
    assume "\<exists>ps ss. c # cs = ps @ pat @ ss"
    then obtain ps ss where eq: "c # cs = ps @ pat @ ss" by blast
    show "str_contains pat (c # cs)"
    proof (cases ps)
      case Nil
      with eq have "prefix pat (c # cs)" by (simp add: prefix_def)
      then show ?thesis by simp
    next
      case (Cons a ps')
      with eq have "cs = ps' @ pat @ ss" by simp
      with Cons.IH have "str_contains pat cs" by blast
      then show ?thesis by simp
    qed
  qed
qed

lemma str_contains_mid: "str_contains (a @ b @ c) s \<Longrightarrow> str_contains b s"
proof -
  assume "str_contains (a @ b @ c) s"
  then obtain ps ss where "s = ps @ (a @ b @ c) @ ss" unfolding str_contains_iff by blast
  then have "s = (ps @ a) @ b @ (c @ ss)" by simp
  then show ?thesis unfolding str_contains_iff by blast
qed

lemma str_contains_skip:
  "x \<notin> set h \<Longrightarrow> str_contains (x # pat) (h @ t) = str_contains (x # pat) t"
  by (induction h) auto

lemma py_replace_skip:
  "x \<notin> set h \<Longrightarrow> py_replace (x # old) new (h @ t) = h @ py_replace (x # old) new t"
  by (induction h) auto

lemma digit_char_digits: "digit_char d \<in> set ''0123456789''"
  by (simp add: digit_char_def)

lemma str_nat_digits: "set (str_nat n) \<subseteq> set ''0123456789''"
proof (induction n rule: str_nat.induct)
  case (1 n)
  show ?case
  proof (cases "n < 10")
    case True
    then have "str_nat n = [digit_char n]" by (simp add: str_nat.simps)
    then show ?thesis using digit_char_digits[of n] by simp
  next
    case False
    then have "str_nat n = str_nat (n div 10) @ [digit_char (n mod 10)]"
      by (subst str_nat.simps) simp
    then show ?thesis using 1[OF False] digit_char_digits[of "n mod 10"] by auto
  qed
qed

lemma bang_not_in_header: "CHR ''!'' \<notin> set (page_header i)"
  using str_nat_digits[of "i + 1"] by (auto simp: page_header_def nl_def)

lemmas eval_defs =
  extract_markdown_from_result_def pages_content_def page_section_obj_def
  page_section_dict_def page_section_list_def add_markdown_def add_markdown_key_def
  page_header_def page_separator_def str_nat.simps digit_char_def link_image_def
  image_link_def image_path_def placeholder_def replace_if_in_def
  as_object_def as_mapping_def as_list_def

subsection \<open>The markdown of a document\<close>

text \<open>Without image links the three encodings of a document give the same markdown; the
  mapping and the list give it whatever the options are.\<close>

lemma page_obj_plain:
  "page_section_obj fmt False d i (page_obj p) = Inr (page_header i @ markdown p)"
  by (cases p) (simp add: page_section_obj_def add_markdown_def)

lemma page_dict_plain:
  "page_section_dict i (page_dict p) = Inr (page_header i @ markdown p)"
  by (cases p) (simp add: page_section_dict_def add_markdown_key_def)

lemma page_list_plain:
  "page_section_list i (page_obj p) = Inr (page_header i @ markdown p)"
  by (cases p) (simp add: page_section_list_def add_markdown_def)

lemma sections_plain:
  "(\<And>i p. f i (g p) = Inr (page_header i @ markdown p)) \<Longrightarrow>
     sections f k (map g ps) = Inr (plain_sections k ps)"
  by (induction ps arbitrary: k) simp_all

lemma shapes_agree_without_images:
  "extract_markdown_from_result fmt (as_object ps) False images_dir
     = Inr ([nl, nl] @ join page_separator (plain_sections 0 ps))
   \<and> extract_markdown_from_result fmt (as_mapping ps) include_images images_dir
     = Inr ([nl, nl] @ join page_separator (plain_sections 0 ps))
   \<and> extract_markdown_from_result fmt (as_list ps) include_images images_dir
     = Inr ([nl, nl] @ join page_separator (plain_sections 0 ps))"
  by (simp add: extract_markdown_from_result_def pages_content_def as_object_def
        as_mapping_def as_list_def
        sections_plain[of "page_section_obj fmt False images_dir" page_obj, OF page_obj_plain]
        sections_plain[of page_section_dict page_dict, OF page_dict_plain]
        sections_plain[of page_section_list page_obj, OF page_list_plain])

text \<open>
  C1, evaluated at the document of one page with the text \<^verbatim>\<open>!img1!\<close> and the image
  \<^verbatim>\<open>img1\<close>, with images included: the object shape gets the image link, the mapping
  and the list shape keep the token, so the three outputs are not the same.
\<close>

theorem shapes_differ_with_images:
  "extract_markdown_from_result fmt (as_object [Page ''!img1!'' [ImageRef ''img1'' None]])
       True (Some ''images'')
     = Inr ([nl, nl] @ ''## Page 1'' @ [nl, nl] @ ''![Image img1](images/img1)'')
   \<and> extract_markdown_from_result fmt (as_mapping [Page ''!img1!'' [ImageRef ''img1'' None]])
       True (Some ''images'')
     = Inr ([nl, nl] @ ''## Page 1'' @ [nl, nl] @ ''!img1!'')
   \<and> extract_markdown_from_result fmt (as_list [Page ''!img1!'' [ImageRef ''img1'' None]])
       True (Some ''images'')
     = Inr ([nl, nl] @ ''## Page 1'' @ [nl, nl] @ ''!img1!'')"
  by (simp add: eval_defs nl_def)

text \<open>
  C2: a value in none of the three shapes (\<^verbatim>\<open>None\<close>, an integer, a string, a mapping or
  an object without \<^verbatim>\<open>pages\<close>) raises nothing and gives the join of no pages behind the
  leading prefix, which is the prefix alone.
\<close>

theorem unrecognized_gives_empty_document:
  "unrecognized r \<Longrightarrow>
     extract_markdown_from_result fmt r include_images images_dir
       = Inr ([nl, nl] @ join page_separator [])
     \<and> [nl, nl] @ join page_separator [] = [nl, nl]"
  by (cases r)
     (auto simp: extract_markdown_from_result_def pages_content_def map_of_eq_None_iff)

theorem unrecognized_gives_empty_document_witness:
  "unrecognized (PInt 7) \<and> unrecognized PNone
   \<and> extract_markdown_from_result plain_fmt (PInt 7) True None = Inr [nl, nl]
   \<and> extract_markdown_from_result plain_fmt PNone False (Some ''images'') = Inr [nl, nl]"
  using unrecognized_gives_empty_document [of "PInt 7" plain_fmt True None]
        unrecognized_gives_empty_document [of PNone plain_fmt False "Some ''images''"]
  by simp

text \<open>
  C3: for the two pages \<^verbatim>\<open>A\<close> and \<^verbatim>\<open>B\<close> without images included, each shape gives the
  prefix, the two headed pages and the separator between them.
\<close>

theorem two_pages_markdown:
  "extract_markdown_from_result fmt (as_object [Page ''A'' [], Page ''B'' []]) False images_dir
     = Inr ([nl, nl] @ ''## Page 1'' @ [nl, nl] @ ''A'' @ [nl, nl] @ ''---'' @ [nl, nl]
            @ ''## Page 2'' @ [nl, nl] @ ''B'')
   \<and> extract_markdown_from_result fmt (as_mapping [Page ''A'' [], Page ''B'' []]) False images_dir
     = Inr ([nl, nl] @ ''## Page 1'' @ [nl, nl] @ ''A'' @ [nl, nl] @ ''---'' @ [nl, nl]
            @ ''## Page 2'' @ [nl, nl] @ ''B'')
   \<and> extract_markdown_from_result fmt (as_list [Page ''A'' [], Page ''B'' []]) False images_dir
     = Inr ([nl, nl] @ ''## Page 1'' @ [nl, nl] @ ''A'' @ [nl, nl] @ ''---'' @ [nl, nl]
            @ ''## Page 2'' @ [nl, nl] @ ''B'')"
  by (simp add: eval_defs)

text \<open>
  C4: an object result with the page \<^verbatim>\<open>!img1!\<close> and the image \<^verbatim>\<open>img1\<close>, images included
  and the directory \<^verbatim>\<open>images\<close>: the output is the headed page with the token replaced
  by the link; it contains the link and no longer the token.
\<close>

theorem token_becomes_link:
  "extract_markdown_from_result fmt (as_object [Page ''!img1!'' [ImageRef ''img1'' b]])
       True (Some ''images'')
     = Inr ([nl, nl] @ ''## Page 1'' @ [nl, nl] @ ''![Image img1](images/img1)'')
   \<and> str_contains ''![Image img1](images/img1)''
        ([nl, nl] @ ''## Page 1'' @ [nl, nl] @ ''![Image img1](images/img1)'')
   \<and> \<not> str_contains ''!img1!''
        ([nl, nl] @ ''## Page 1'' @ [nl, nl] @ ''![Image img1](images/img1)'')"
  by (cases b) (simp_all add: eval_defs nl_def)

text \<open>
  C10: on a mapping or a list the options are not read: the output is the same for all
  values of \<^verbatim>\<open>include_images\<close> and \<^verbatim>\<open>images_dir\<close>.
\<close>

theorem options_ignored_on_mapping_and_list:
  "is_dict r \<or> is_list r \<Longrightarrow>
     extract_markdown_from_result fmt r include_images images_dir
       = extract_markdown_from_result fmt r include_images' images_dir'"
  by (cases r) (auto simp: extract_markdown_from_result_def pages_content_def)

theorem options_ignored_on_mapping_and_list_witness:
  "(is_dict (as_mapping [Page ''!img1!'' [ImageRef ''img1'' None]])
      \<or> is_list (as_mapping [Page ''!img1!'' [ImageRef ''img1'' None]]))
   \<and> extract_markdown_from_result plain_fmt
        (as_mapping [Page ''!img1!'' [ImageRef ''img1'' None]]) True (Some ''images'')
     = extract_markdown_from_result plain_fmt
        (as_mapping [Page ''!img1!'' [ImageRef ''img1'' None]]) False None"
  using options_ignored_on_mapping_and_list
          [of "as_mapping [Page ''!img1!'' [ImageRef ''img1'' None]]"
              plain_fmt True "Some ''images''" False None]
  by (simp add: as_mapping_def)

subsection \<open>Saving the images\<close>

text \<open>
  C9: on a mapping or a list the read of the \<^verbatim>\<open>pages\<close> attribute fails: the output
  directory has been made, nothing else is done and the run ends in \<^verbatim>\<open>AttributeError\<close>.
\<close>

theorem save_images_needs_attribute:
  "is_dict r \<or> is_list r \<Longrightarrow>
     save_images_from_ocr fmt joinpath can_open b64decode r output_dir
       = ([Mkdir output_dir], Inl AttributeError)"
  by (cases r) (auto simp: save_images_from_ocr_def)

theorem save_images_needs_attribute_witness:
  "(is_dict (as_mapping [Page ''x'' [ImageRef ''img1'' (Some ''QUJD'')]])
      \<or> is_list (as_mapping [Page ''x'' [ImageRef ''img1'' (Some ''QUJD'')]]))
   \<and> save_images_from_ocr plain_fmt slash_join any_path raw_decode
        (as_mapping [Page ''x'' [ImageRef ''img1'' (Some ''QUJD'')]]) ''out''
     = ([Mkdir ''out''], Inl AttributeError)"
  using save_images_needs_attribute
          [of "as_mapping [Page ''x'' [ImageRef ''img1'' (Some ''QUJD'')]]"
              plain_fmt slash_join any_path raw_decode "''out''"]
  by (simp add: as_mapping_def)

lemma and_then_Inr: "and_then m f = Inr y \<longleftrightarrow> (\<exists>x. m = Inr x \<and> f x = Inr y)"
  by (cases m) auto

subsection \<open>One section per page, in the order of the pages\<close>

lemma sections_Inr:
  "sections f k ps = Inr ss \<Longrightarrow>
     length ss = length ps \<and> (\<forall>i<length ps. f (k + i) (ps ! i) = Inr (ss ! i))"
proof (induction ps arbitrary: k ss)
  case Nil
  then show ?case by simp
next
  case (Cons p ps)
  from Cons.prems obtain s ss' where s: "f k p = Inr s" and r: "sections f (Suc k) ps = Inr ss'"
    and ss: "ss = s # ss'"
    by (auto simp: and_then_Inr)
  from Cons.IH[OF r] have len: "length ss' = length ps"
    and nth: "\<forall>i<length ps. f (Suc k + i) (ps ! i) = Inr (ss' ! i)" by auto
  show ?case
  proof (intro conjI allI impI)
    show "length ss = length (p # ps)" using len ss by simp
  next
    fix i assume "i < length (p # ps)"
    then show "f (k + i) ((p # ps) ! i) = Inr (ss ! i)"
      using s nth ss by (cases i) auto
  qed
qed

lemma sections_total:
  "(\<And>k p. p \<in> set ps \<Longrightarrow> \<exists>s. f k p = Inr s) \<Longrightarrow> \<exists>ss. sections f k ps = Inr ss"
proof (induction ps arbitrary: k)
  case Nil
  then show ?case by simp
next
  case (Cons p ps)
  from Cons.prems[of p k] obtain s where s: "f k p = Inr s" by auto
  from Cons.IH[of "Suc k"] Cons.prems obtain ss where "sections f (Suc k) ps = Inr ss"
    by (metis list.set_intros(2))
  with s show ?case by simp
qed

lemma str_add_prefix: "str_add c v = Inr s \<Longrightarrow> prefix c s"
  by (cases v) auto

lemma add_markdown_prefix: "add_markdown c page = Inr s \<Longrightarrow> prefix c s"
  by (auto simp: add_markdown_def and_then_Inr split: if_splits dest: str_add_prefix)

lemma add_markdown_key_prefix: "add_markdown_key c page = Inr s \<Longrightarrow> prefix c s"
  by (auto simp: add_markdown_key_def and_then_Inr split: if_splits dest: str_add_prefix)

lemma replace_if_in_prefix:
  "CHR ''!'' \<notin> set h \<Longrightarrow> prefix h c \<Longrightarrow> prefix h (replace_if_in (CHR ''!'' # old) new c)"
  by (auto simp: replace_if_in_def prefix_def py_replace_skip)

lemma placeholder_bang: "placeholder i = CHR ''!'' # tl (placeholder i)"
  by (simp add: placeholder_def)

lemma link_image_prefix:
  assumes "CHR ''!'' \<notin> set h" "prefix h c"
  shows "prefix h (link_image fmt d i c img)"
proof (cases "getattr img ''id''")
  case (Inl e)
  then show ?thesis using assms by (simp add: link_image_def)
next
  case (Inr v)
  have 3: "\<And>new c. prefix h c \<Longrightarrow> prefix h (replace_if_in (placeholder i) new c)"
    using replace_if_in_prefix[OF assms(1)] placeholder_bang[of i] by metis
  show ?thesis using Inr assms
    by (simp add: link_image_def Let_def 3 replace_if_in_prefix)
qed

lemma foldl_link_image_prefix:
  "CHR ''!'' \<notin> set h \<Longrightarrow> prefix h c \<Longrightarrow> prefix h (foldl (link_image fmt d i) c imgs)"
  by (induction imgs arbitrary: c) (auto simp: link_image_prefix)

lemma page_section_obj_prefix:
  "page_section_obj fmt inc d i page = Inr s \<Longrightarrow> prefix (page_header i) s"
  by (auto simp: page_section_obj_def and_then_Inr split: if_splits
           dest!: add_markdown_prefix intro!: foldl_link_image_prefix bang_not_in_header)

lemma page_section_prefix:
  "page_section fmt r inc d i page = Inr s \<Longrightarrow> prefix (page_header i) s"
  by (auto simp: page_section_def page_section_dict_def page_section_list_def
           split: if_splits
           dest: page_section_obj_prefix add_markdown_prefix add_markdown_key_prefix)

lemma pages_content_sections:
  "result_pages r = Some ps \<Longrightarrow>
     pages_content fmt r inc d = sections (page_section fmt r inc d) 0 ps"
  by (cases r)
     (auto simp: pages_content_def page_section_def split: option.splits pyval.splits)

text \<open>For any result that carries a list of pages: an output has one section per page,
  the section at position \<open>i\<close> is the one computed from the page at position \<open>i\<close> and
  begins with the heading of page number \<open>i + 1\<close>.\<close>

lemma sections_of_result:
  assumes "result_pages r = Some ps"
    and "extract_markdown_from_result fmt r inc d = Inr out"
  shows "\<exists>ss. out = [nl, nl] @ join page_separator ss \<and> length ss = length ps
     \<and> (\<forall>i<length ps. page_section fmt r inc d i (ps ! i) = Inr (ss ! i)
            \<and> prefix (page_header i) (ss ! i))"
proof -
  from assms obtain ss where ss: "sections (page_section fmt r inc d) 0 ps = Inr ss"
    and out: "out = [nl, nl] @ join page_separator ss"
    by (auto simp: extract_markdown_from_result_def and_then_Inr pages_content_sections)
  from sections_Inr[OF ss] have len: "length ss = length ps"
    and nth: "\<forall>i<length ps. page_section fmt r inc d i (ps ! i) = Inr (ss ! i)" by auto
  show ?thesis using out len nth page_section_prefix by blast
qed

subsection \<open>Pages whose text matches no pattern\<close>

lemma replace_if_in_absent: "\<not> str_contains old c \<Longrightarrow> replace_if_in old new c = c"
  by (simp add: replace_if_in_def)

lemma link_image_unchanged:
  assumes "getattr img ''id'' = Inr v"
    and "\<not> str_contains (py_str fmt v) c"
    and "\<not> str_contains (placeholder i) c"
  shows "link_image fmt d i c img = c"
proof -
  let ?ident = "py_str fmt v"
  have 1: "\<not> str_contains (''!'' @ ?ident @ ''!'') c"
    using assms(2) str_contains_mid[of "''!''" ?ident "''!''" c] by blast
  have 2: "\<not> str_contains (''!['' @ ?ident @ '']('' @ ?ident @ '')'') c"
    using assms(2) str_contains_mid[of "''![''" ?ident "'']('' @ ?ident @ '')''" c] by blast
  show ?thesis using assms(1) 1 2 assms(3)
    by (simp add: link_image_def Let_def replace_if_in_absent)
qed

lemma link_image_no_id: "getattr img ''id'' = Inl e \<Longrightarrow> link_image fmt d i c img = c"
  by (simp add: link_image_def)

lemma link_image_page_unchanged:
  assumes "getattr img ''id'' = Inr v"
    and "\<not> str_contains (py_str fmt v) md"
    and "\<not> str_contains (placeholder i) md"
  shows "link_image fmt d i (page_header i @ md) img = page_header i @ md"
proof -
  let ?ident = "py_str fmt v"
  let ?c = "page_header i @ md"
  note skip = str_contains_skip[OF bang_not_in_header, of _ i md]
  have "\<not> str_contains (''!'' @ ?ident @ ''!'') md"
    using assms(2) str_contains_mid[of "''!''" ?ident "''!''" md] by blast
  then have 1: "\<not> str_contains (''!'' @ ?ident @ ''!'') ?c"
    using skip[of "?ident @ ''!''"] by simp
  have "\<not> str_contains (''!['' @ ?ident @ '']('' @ ?ident @ '')'') md"
    using assms(2) str_contains_mid[of "''![''" ?ident "'']('' @ ?ident @ '')''" md] by blast
  then have 2: "\<not> str_contains (''!['' @ ?ident @ '']('' @ ?ident @ '')'') ?c"
    using skip[of "''['' @ ?ident @ '']('' @ ?ident @ '')''"] by simp
  have 3: "\<not> str_contains (placeholder i) ?c"
    using assms(3) skip[of "tl (placeholder i)"] placeholder_bang[of i] by metis
  show ?thesis using assms(1) 1 2 3
    by (simp add: link_image_def Let_def replace_if_in_absent)
qed

lemma foldl_link_image_unchanged:
  assumes "\<forall>img\<in>set imgs. \<forall>v. getattr img ''id'' = Inr v \<longrightarrow> \<not> str_contains (py_str fmt v) md"
    and "\<not> str_contains (placeholder i) md"
  shows "foldl (link_image fmt d i) (page_header i @ md) imgs = page_header i @ md"
  using assms(1)
proof (induction imgs)
  case Nil
  then show ?case by simp
next
  case (Cons img imgs)
  have "link_image fmt d i (page_header i @ md) img = page_header i @ md"
  proof (cases "getattr img ''id''")
    case (Inl e)
    then show ?thesis by (rule link_image_no_id)
  next
    case (Inr v)
    then show ?thesis using Cons.prems assms(2) by (intro link_image_page_unchanged) auto
  qed
  then show ?case using Cons by simp
qed

lemma img_obj_id: "getattr (img_obj im) ''id'' = Inr (PStr (ref_id im))"
  by (cases im) simp

lemma page_obj_unchanged:
  assumes "\<forall>im\<in>set (images p). \<not> str_contains (ref_id im) (markdown p)"
    and "\<not> str_contains (placeholder i) (markdown p)"
  shows "page_section_obj fmt True d i (page_obj p) = Inr (page_header i @ markdown p)"
proof -
  obtain md ims where p: "p = Page md ims" by (cases p)
  have "foldl (link_image fmt d i) (page_header i @ md) (map img_obj ims) = page_header i @ md"
    using assms p by (intro foldl_link_image_unchanged) (auto simp: img_obj_id)
  then show ?thesis
    by (simp add: p page_section_obj_def add_markdown_def)
qed

lemma page_section_obj_total:
  "\<exists>s. page_section_obj fmt inc d i (page_obj p) = Inr s"
  by (cases p) (simp add: page_section_obj_def add_markdown_def)

subsection \<open>The sections of a document\<close>











subsection \<open>Saving the images of a document\<close>

lemma save_image_img_obj:
  "savable jp opn dec dir im \<Longrightarrow>
   save_image fmt jp opn dec dir (n, tr) (img_obj im) =
     (if has_data im then ((n + 1, tr @ image_effects jp dec dir im), None)
      else ((n, tr), None))"
  by (cases im)
     (auto simp: save_image_def has_data_def savable_def image_effects_def Let_def
           split: option.splits decoded.splits)

lemma for_each_images:
  "list_all (savable jp opn dec dir) ims \<Longrightarrow>
   for_each (save_image fmt jp opn dec dir) (n, tr) (map img_obj ims) =
     ((n + length (filter has_data ims), tr @ concat (map (image_effects jp dec dir) ims)), None)"
proof (induction ims arbitrary: n tr)
  case Nil
  then show ?case by simp
next
  case (Cons im ims)
  then have d: "savable jp opn dec dir im" and ds: "list_all (savable jp opn dec dir) ims" by auto
  have noeff: "\<not> has_data im \<Longrightarrow> image_effects jp dec dir im = []"
    by (auto simp: has_data_def image_effects_def split: option.splits)
  show ?case
  proof (cases "has_data im")
    case True
    then show ?thesis using Cons.IH[OF ds, of "n + 1" "tr @ image_effects jp dec dir im"]
      by (simp add: save_image_img_obj[OF d])
  next
    case False
    then show ?thesis using Cons.IH[OF ds, of n tr] noeff
      by (simp add: save_image_img_obj[OF d])
  qed
qed

lemma save_page_obj:
  assumes "list_all (savable jp opn dec dir) (images p)"
  shows "save_page_images fmt jp opn dec dir (n, tr) (page_obj p) =
     ((n + length (filter has_data (images p)), tr @ page_effects jp dec dir p), None)"
proof -
  obtain md ims where p: "p = Page md ims" by (cases p)
  show ?thesis
  proof (cases "ims = []")
    case True
    then show ?thesis by (simp add: p save_page_images_def page_effects_def)
  next
    case False
    then show ?thesis using assms for_each_images[of jp opn dec dir ims fmt n tr]
      by (simp add: p save_page_images_def page_effects_def)
  qed
qed

lemma for_each_pages:
  "list_all (\<lambda>p. list_all (savable jp opn dec dir) (images p)) ps \<Longrightarrow>
   for_each (save_page_images fmt jp opn dec dir) (n, tr) (map page_obj ps) =
     ((n + data_count ps, tr @ concat (map (page_effects jp dec dir) ps)), None)"
proof (induction ps arbitrary: n tr)
  case Nil
  then show ?case by (simp add: data_count_def)
next
  case (Cons p ps)
  then have d: "list_all (savable jp opn dec dir) (images p)"
    and ds: "list_all (\<lambda>p. list_all (savable jp opn dec dir) (images p)) ps" by auto
  show ?case
    using Cons.IH[OF ds, of "n + length (filter has_data (images p))" "tr @ page_effects jp dec dir p"]
    by (simp add: save_page_obj[OF d] data_count_def add.assoc)
qed

lemma save_images_document:
  assumes "list_all (\<lambda>p. list_all (savable jp opn dec dir) (images p)) ps"
  shows "save_images_from_ocr fmt jp opn dec (as_object ps) dir =
     ([Mkdir dir] @ concat (map (page_effects jp dec dir) ps)
        @ [Print (report (data_count ps) dir)], Inr PNone)"
  using for_each_pages[OF assms, of fmt 0 "[Mkdir dir]"]
  by (simp add: save_images_from_ocr_def as_object_def)

text \<open>Where the file of an image cannot be opened, the run ends in \<^verbatim>\<open>OSError\<close> after the
  attempt, and nothing is written.\<close>

lemma save_images_open_fails:
  "save_images_from_ocr plain_fmt slash_join no_path raw_decode
      (as_object [Page ''x'' [ImageRef ''sub/img1'' (Some ''QUJD'')]]) ''out''
     = ([Mkdir ''out'', OpenWb ''out/sub/img1''], Inl OSError)"
  by (simp add: save_images_from_ocr_def save_page_images_def save_image_def as_object_def
        plain_fmt_def slash_join_def no_path_def Let_def)

text \<open>
  C5, amended: on a document given as an object, take the page at index \<open>i\<close>. If no
  image id of the page occurs in the page's markdown text and the text does not contain
  the placeholder \<^verbatim>\<open>![img-i.jpeg](img-i.jpeg)\<close> of the page index either, then with images
  included the section of the page is its heading followed by the unchanged text. And
  where every image of the document that has data can be saved (its file under the
  output directory can be opened for writing and its data decodes),
  \<open>save_images_from_ocr\<close> completes and has written the decoded bytes of every image of
  the page that has non-empty data.
\<close>

theorem page_without_matches_unchanged:
  assumes "i < length ps"
    and "\<forall>im\<in>set (images (ps ! i)). \<not> str_contains (ref_id im) (markdown (ps ! i))"
    and "\<not> str_contains (placeholder i) (markdown (ps ! i))"
    and "list_all (\<lambda>p. list_all (savable joinpath can_open b64decode output_dir) (images p)) ps"
  shows "(\<exists>ss. extract_markdown_from_result fmt (as_object ps) True images_dir
                 = Inr ([nl, nl] @ join page_separator ss)
              \<and> length ss = length ps \<and> ss ! i = page_header i @ markdown (ps ! i))
     \<and> snd (save_images_from_ocr fmt joinpath can_open b64decode (as_object ps) output_dir) = Inr PNone
     \<and> (\<forall>im\<in>set (images (ps ! i)). \<forall>b bytes.
           base64Data im = Some b \<and> b \<noteq> [] \<and> b64decode b = Decoded bytes \<longrightarrow>
           WriteBytes (joinpath output_dir (ref_id im)) bytes
             \<in> set (fst (save_images_from_ocr fmt joinpath can_open b64decode (as_object ps) output_dir)))"
proof (intro conjI ballI allI impI)
  let ?f = "page_section_obj fmt True images_dir"
  have "\<exists>ss. sections ?f 0 (map page_obj ps) = Inr ss"
  proof (rule sections_total)
    fix k p assume "p \<in> set (map page_obj ps)"
    then obtain q where "p = page_obj q" by auto
    then show "\<exists>s. ?f k p = Inr s" using page_section_obj_total by simp
  qed
  then obtain ss where ss: "sections ?f 0 (map page_obj ps) = Inr ss" by blast
  from sections_Inr[OF ss] have len: "length ss = length ps"
    and nth: "?f i (page_obj (ps ! i)) = Inr (ss ! i)"
    using assms(1) by auto
  have "ss ! i = page_header i @ markdown (ps ! i)"
    using nth page_obj_unchanged[OF assms(2,3), of fmt images_dir] by simp
  moreover have "extract_markdown_from_result fmt (as_object ps) True images_dir
      = Inr ([nl, nl] @ join page_separator ss)"
    using ss by (simp add: extract_markdown_from_result_def pages_content_def as_object_def)
  ultimately show "\<exists>ss. extract_markdown_from_result fmt (as_object ps) True images_dir
                 = Inr ([nl, nl] @ join page_separator ss)
              \<and> length ss = length ps \<and> ss ! i = page_header i @ markdown (ps ! i)"
    using len by blast
next
  show "snd (save_images_from_ocr fmt joinpath can_open b64decode (as_object ps) output_dir) = Inr PNone"
    by (simp add: save_images_document[OF assms(4)])
next
  fix im b bytes
  assume im: "im \<in> set (images (ps ! i))"
    and b: "base64Data im = Some b \<and> b \<noteq> [] \<and> b64decode b = Decoded bytes"
  let ?w = "WriteBytes (joinpath output_dir (ref_id im)) bytes"
  have "?w \<in> set (image_effects joinpath b64decode output_dir im)"
    using b by (simp add: image_effects_def)
  then have "?w \<in> set (page_effects joinpath b64decode output_dir (ps ! i))"
    using im by (auto simp: page_effects_def)
  moreover have "ps ! i \<in> set ps" using assms(1) by simp
  ultimately have "?w \<in> set (concat (map (page_effects joinpath b64decode output_dir) ps))"
    by auto
  then show "?w \<in> set (fst (save_images_from_ocr fmt joinpath can_open b64decode (as_object ps) output_dir))"
    by (simp add: save_images_document[OF assms(4)])
qed

theorem page_without_matches_unchanged_witness:
  "(0::nat) < length [Page ''see the figure'' [ImageRef ''img1'' (Some ''QUJD'')]]
   \<and> \<not> str_contains ''img1'' ''see the figure''
   \<and> \<not> str_contains (placeholder 0) ''see the figure''
   \<and> extract_markdown_from_result plain_fmt
        (as_object [Page ''see the figure'' [ImageRef ''img1'' (Some ''QUJD'')]]) True (Some ''images'')
      = Inr ([nl, nl] @ ''## Page 1'' @ [nl, nl] @ ''see the figure'')
   \<and> WriteBytes ''out/img1'' ''QUJD''
        \<in> set (fst (save_images_from_ocr plain_fmt slash_join any_path raw_decode
             (as_object [Page ''see the figure'' [ImageRef ''img1'' (Some ''QUJD'')]]) ''out''))"
proof -
  let ?ps = "[Page ''see the figure'' [ImageRef ''img1'' (Some ''QUJD'')]]"
  have h1: "(0::nat) < length ?ps" by simp
  have h2: "\<forall>im\<in>set (images (?ps ! 0)). \<not> str_contains (ref_id im) (markdown (?ps ! 0))"
    by simp
  have h3: "\<not> str_contains (placeholder 0) (markdown (?ps ! 0))"
    by (simp add: placeholder_def)
  have h4: "list_all (\<lambda>p. list_all (savable slash_join any_path raw_decode ''out'') (images p)) ?ps"
    by (simp add: savable_def raw_decode_def any_path_def)
  from page_without_matches_unchanged[OF h1 h2 h3 h4, of plain_fmt "Some ''images''"]
  obtain ss where e: "extract_markdown_from_result plain_fmt (as_object ?ps) True (Some ''images'')
                 = Inr ([nl, nl] @ join page_separator ss)"
     and l: "length ss = length ?ps" and n: "ss ! 0 = page_header 0 @ markdown (?ps ! 0)"
     and w: "\<forall>im\<in>set (images (?ps ! 0)). \<forall>b bytes.
           base64Data im = Some b \<and> b \<noteq> [] \<and> raw_decode b = Decoded bytes \<longrightarrow>
           WriteBytes (slash_join ''out'' (ref_id im)) bytes
             \<in> set (fst (save_images_from_ocr plain_fmt slash_join any_path raw_decode (as_object ?ps) ''out''))"
    by blast
  from l n have "ss = [page_header 0 @ ''see the figure'']"
    by (cases ss) auto
  then have 1: "extract_markdown_from_result plain_fmt (as_object ?ps) True (Some ''images'')
      = Inr ([nl, nl] @ ''## Page 1'' @ [nl, nl] @ ''see the figure'')"
    using e by (simp add: page_header_def str_nat.simps digit_char_def)
  have 2: "WriteBytes ''out/img1'' ''QUJD''
        \<in> set (fst (save_images_from_ocr plain_fmt slash_join any_path raw_decode (as_object ?ps) ''out''))"
    using w by (simp add: raw_decode_def slash_join_def)
  show ?thesis using h1 h2 h3 1 2 by simp
qed

text \<open>
  C5 as stated fails: the id \<^verbatim>\<open>x\<close> occurs nowhere in the text of the first page, and the
  text is replaced all the same, because the third pattern is built from the page index
  and not from the id.
\<close>

theorem placeholder_replaced_for_other_id:
  "\<not> str_contains ''x'' ''![img-0.jpeg](img-0.jpeg)''
   \<and> extract_markdown_from_result plain_fmt
        (as_object [Page ''![img-0.jpeg](img-0.jpeg)'' [ImageRef ''x'' None]]) True None
      = Inr ([nl, nl] @ ''## Page 1'' @ [nl, nl] @ ''![Image x](x)'')
   \<and> ''![Image x](x)'' \<noteq> ''![img-0.jpeg](img-0.jpeg)''"
  by (simp add: eval_defs nl_def)

subsection \<open>What save\_images\_from\_ocr returns and reports\<close>


lemma for_each_error:
  assumes step: "\<And>s x s' e. f s x = (s', Some e) \<Longrightarrow> P e"
  shows "for_each f s xs = (s', Some e) \<Longrightarrow> P e"
proof (induction xs arbitrary: s)
  case Nil
  then show ?case by simp
next
  case (Cons x xs)
  obtain s1 r where fx: "f s x = (s1, r)" by (cases "f s x")
  show ?case
  proof (cases r)
    case None
    with Cons.prems fx have "for_each f s1 xs = (s', Some e)" by simp
    then show ?thesis by (rule Cons.IH)
  next
    case (Some e')
    with Cons.prems fx have "e' = e" by simp
    with fx Some show ?thesis using step by blast
  qed
qed










subsection \<open>The credential check of ocr\_pdf\<close>

lemma seq_snd_neq:
  "snd m \<noteq> Inl E \<Longrightarrow> (\<And>v. snd (f v) \<noteq> Inl E) \<Longrightarrow> snd (seq m f) \<noteq> Inl E"
proof -
  assume m: "snd m \<noteq> Inl E" and f: "\<And>v. snd (f v) \<noteq> Inl E"
  obtain tr r where mr: "m = (tr, r)" by (cases m)
  show ?thesis
  proof (cases r)
    case (Inl e)
    then show ?thesis using m mr by simp
  next
    case (Inr v)
    obtain tr' r' where fv: "f v = (tr', r')" by (cases "f v")
    then have "r' \<noteq> Inl E" using f[of v] by simp
    then show ?thesis using mr Inr fv by simp
  qed
qed

lemma seq_emit: "seq (emit e) f = (e # fst (f ()), snd (f ()))"
  by (simp add: emit_def split: prod.splits)

lemma getattr_error: "getattr v name = Inl e \<Longrightarrow> e = AttributeError"
  by (cases v) (auto split: option.splits)

lemma py_iter_error: "py_iter v = Inl e \<Longrightarrow> e = TypeError"
  by (cases v) auto

lemma save_image_error:
  "save_image fmt jp opn dec dir st img = (st', Some e) \<Longrightarrow> e \<in> {AttributeError, TypeError, Binascii_Error, OSError, ValueError not_ascii}"
  by (cases st)
     (auto simp: save_image_def Let_def
           split: sum.splits if_splits pyval.splits decoded.splits dest: getattr_error)

lemma save_page_images_error:
  assumes "save_page_images fmt jp opn dec dir st page = (st', Some e)"
  shows "e \<in> {AttributeError, TypeError, Binascii_Error, OSError, ValueError not_ascii}"
proof (cases "getattr page ''images''")
  case (Inl x)
  then show ?thesis using assms by (simp add: save_page_images_def)
next
  case (Inr v)
  show ?thesis
  proof (cases "truthy v")
    case False
    then show ?thesis using assms Inr by (simp add: save_page_images_def)
  next
    case True
    show ?thesis
    proof (cases "py_iter v")
      case (Inl x)
      then show ?thesis using assms Inr True py_iter_error
        by (auto simp: save_page_images_def)
    next
      case (Inr imgs)
      then have "for_each (save_image fmt jp opn dec dir) st imgs = (st', Some e)"
        using assms \<open>getattr page ''images'' = Inr v\<close> True by (simp add: save_page_images_def)
      then show ?thesis
        using for_each_error[of "save_image fmt jp opn dec dir"
                "\<lambda>e. e \<in> {AttributeError, TypeError, Binascii_Error, OSError, ValueError not_ascii}" st imgs st' e]
              save_image_error by blast
    qed
  qed
qed

lemma save_images_from_ocr_error:
  assumes "snd (save_images_from_ocr fmt jp opn dec r dir) = Inl e"
  shows "e \<in> {AttributeError, TypeError, Binascii_Error, OSError, ValueError not_ascii}"
proof (cases "and_then (getattr r ''pages'') py_iter")
  case (Inl x)
  then have "x = AttributeError \<or> x = TypeError"
    by (cases "getattr r ''pages''") (auto dest: getattr_error py_iter_error)
  then show ?thesis using assms Inl by (auto simp: save_images_from_ocr_def)
next
  case (Inr pages)
  let ?f = "save_page_images fmt jp opn dec dir"
  obtain n tr res where fe: "for_each ?f (0, [Mkdir dir]) pages = ((n, tr), res)"
    by (cases "for_each ?f (0, [Mkdir dir]) pages") auto
  with assms Inr have "res = Some e"
    by (cases res) (auto simp: save_images_from_ocr_def)
  with fe show ?thesis
    using for_each_error[of ?f "\<lambda>e. e \<in> {AttributeError, TypeError, Binascii_Error, OSError, ValueError not_ascii}"
             "(0, [Mkdir dir])" pages "(n, tr)" e]
          save_page_images_error by blast
qed

lemma upload_and_process_error:
  "snd (upload_and_process w verbose p) \<noteq> Inl (ValueError m)"
  unfolding upload_and_process_def
  by (intro seq_snd_neq)
     (auto simp: emit_def call_def pure_def split: option.splits dest: getattr_error)

lemma save_images_no_value_error:
  "snd (save_images_from_ocr fmt jp opn dec r dir) \<noteq> Inl (ValueError missing_key)"
  using save_images_from_ocr_error[of fmt jp opn dec r dir "ValueError missing_key"]
  by (auto simp: missing_key_def not_ascii_def)

lemma save_after_ocr_error:
  "snd (if save_images \<and> hasattr resp ''pages''
        then seq (save_images_from_ocr fmt jp opn dec resp dir) (\<lambda>_. pure (Inr resp))
        else pure (Inr resp)) \<noteq> Inl (ValueError missing_key)"
  using seq_snd_neq[OF save_images_no_value_error, of "\<lambda>_. pure (Inr resp)" fmt jp opn dec resp dir]
  by (simp add: pure_def)

text \<open>
  C7: in both versions of \<open>ocr_pdf\<close>, when \<^verbatim>\<open>MISTRAL_API_KEY\<close> is unset or empty the run
  has no effect at all (no output, no client, no file opened, no upload) and ends in the
  \<^verbatim>\<open>ValueError\<close> of the missing key; when the key is set and not empty the run goes on to
  construct the client with it and does not end in that error.
\<close>

theorem missing_key_raises_first:
  "(environ w ''MISTRAL_API_KEY'' = None \<or> environ w ''MISTRAL_API_KEY'' = Some [] \<longrightarrow>
      ocr_pdf w fmt joinpath b64decode pdf_path save_images output_dir
        = ([], Inl (ValueError missing_key))
      \<and> main_ocr_pdf w pdf_path = ([], Inl (ValueError missing_key)))
   \<and> (environ w ''MISTRAL_API_KEY'' = Some api_key \<and> api_key \<noteq> [] \<longrightarrow>
      snd (ocr_pdf w fmt joinpath b64decode pdf_path save_images output_dir)
        \<noteq> Inl (ValueError missing_key)
      \<and> snd (main_ocr_pdf w pdf_path) \<noteq> Inl (ValueError missing_key)
      \<and> take 2 (fst (ocr_pdf w fmt joinpath b64decode pdf_path save_images output_dir))
          = [Print (''Processing PDF: '' @ pdf_path), NewClient api_key]
      \<and> take 1 (fst (main_ocr_pdf w pdf_path)) = [NewClient api_key])"
proof (rule conjI; rule impI)
  assume "environ w ''MISTRAL_API_KEY'' = None \<or> environ w ''MISTRAL_API_KEY'' = Some []"
  then show "ocr_pdf w fmt joinpath b64decode pdf_path save_images output_dir
        = ([], Inl (ValueError missing_key))
      \<and> main_ocr_pdf w pdf_path = ([], Inl (ValueError missing_key))"
    by (auto simp: ocr_pdf_def main_ocr_pdf_def)
next
  assume k: "environ w ''MISTRAL_API_KEY'' = Some api_key \<and> api_key \<noteq> []"
  have 1: "snd (ocr_pdf w fmt joinpath b64decode pdf_path save_images output_dir)
        \<noteq> Inl (ValueError missing_key)"
    using k unfolding ocr_pdf_def
    by (simp del: seq.simps)
       (intro seq_snd_neq save_after_ocr_error; simp add: emit_def upload_and_process_error)
  have 2: "snd (main_ocr_pdf w pdf_path) \<noteq> Inl (ValueError missing_key)"
    using k unfolding main_ocr_pdf_def
    by (simp del: seq.simps)
       (intro seq_snd_neq; simp add: emit_def upload_and_process_error)
  have 3: "take 2 (fst (ocr_pdf w fmt joinpath b64decode pdf_path save_images output_dir))
          = [Print (''Processing PDF: '' @ pdf_path), NewClient api_key]"
    using k by (simp add: ocr_pdf_def seq_emit)
  have 4: "take 1 (fst (main_ocr_pdf w pdf_path)) = [NewClient api_key]"
    using k by (simp add: main_ocr_pdf_def seq_emit)
  show "snd (ocr_pdf w fmt joinpath b64decode pdf_path save_images output_dir)
        \<noteq> Inl (ValueError missing_key)
      \<and> snd (main_ocr_pdf w pdf_path) \<noteq> Inl (ValueError missing_key)
      \<and> take 2 (fst (ocr_pdf w fmt joinpath b64decode pdf_path save_images output_dir))
          = [Print (''Processing PDF: '' @ pdf_path), NewClient api_key]
      \<and> take 1 (fst (main_ocr_pdf w pdf_path)) = [NewClient api_key]"
    using 1 2 3 4 by blast
qed

theorem missing_key_raises_first_witness:
  "environ no_key_world ''MISTRAL_API_KEY'' = None
   \<and> ocr_pdf no_key_world plain_fmt slash_join raw_decode ''doc.pdf'' True None
       = ([], Inl (ValueError missing_key))
   \<and> main_ocr_pdf no_key_world ''doc.pdf'' = ([], Inl (ValueError missing_key))
   \<and> environ key_world ''MISTRAL_API_KEY'' = Some ''secret''
   \<and> snd (ocr_pdf key_world plain_fmt slash_join raw_decode ''doc.pdf'' True None)
       \<noteq> Inl (ValueError missing_key)
   \<and> snd (main_ocr_pdf key_world ''doc.pdf'') \<noteq> Inl (ValueError missing_key)
   \<and> take 1 (fst (main_ocr_pdf key_world ''doc.pdf'')) = [NewClient ''secret'']"
proof -
  have n: "environ no_key_world ''MISTRAL_API_KEY'' = None"
    by (simp add: no_key_world_def)
  have k: "environ key_world ''MISTRAL_API_KEY'' = Some ''secret'' \<and> ''secret'' \<noteq> []"
    by (simp add: key_world_def no_key_world_def)
  show ?thesis
    using n k
      missing_key_raises_first [of no_key_world plain_fmt slash_join raw_decode "''doc.pdf''"
        True None "''secret''"]
      missing_key_raises_first [of key_world plain_fmt slash_join raw_decode "''doc.pdf''"
        True None "''secret''"]
    by simp
qed

end
